theory Spec2Isabelle
  imports Complex_Main "HOL-Library.Word"
begin

unbundle bit_operations_syntax

section \<open>The dtextc.dat text extractor (decode.py)\<close>

text \<open>
  A shallow embedding of \<^verbatim>\<open>docs/original-src-c/decode.py\<close>. The script walks the
  metadata of a binary game database with a file cursor, decrypts the remaining bytes with
  a positional XOR cipher and cuts the result into message strings.

  Python values are modelled as follows: a byte is an \<open>8 word\<close>, an integer is an
  \<open>int\<close>, a value that may be \<^verbatim>\<open>None\<close> is an \<open>int option\<close>, a \<^verbatim>\<open>str\<close> is the list of
  its Unicode code points, a \<^verbatim>\<open>dict\<close> is a map. An exception is a value of the type
  \<open>error\<close>; a function that can raise returns \<open>error + 'a\<close>.
\<close>

subsection \<open>The byte source\<close>

type_synonym byte = "8 word"

text \<open>The open binary file: its content and the cursor that \<^verbatim>\<open>read\<close> advances.\<close>

record stream =
  data :: "byte list"
  pos :: nat

datatype error = TypeError | ValueError

text \<open>
  \<^verbatim>\<open>f.read(n)\<close>: at most \<open>n\<close> bytes from the cursor on; the cursor moves past what
  was returned. \<^verbatim>\<open>f.read()\<close> returns everything that is left, \<^verbatim>\<open>f.seek(p)\<close> sets the
  cursor and \<^verbatim>\<open>f.tell()\<close> reports it.
\<close>

definition read :: "stream \<Rightarrow> nat \<Rightarrow> byte list \<times> stream" where
  "read f n =
     (let bytes_data = take n (drop (pos f) (data f))
      in (bytes_data, f\<lparr>pos := pos f + length bytes_data\<rparr>))"

definition read_all :: "stream \<Rightarrow> byte list \<times> stream" where
  "read_all f =
     (let bytes_data = drop (pos f) (data f)
      in (bytes_data, f\<lparr>pos := pos f + length bytes_data\<rparr>))"

definition seek :: "stream \<Rightarrow> nat \<Rightarrow> stream" where
  "seek f p = f\<lparr>pos := p\<rparr>"

definition tell :: "stream \<Rightarrow> nat" where
  "tell f = pos f"

text \<open>\<^verbatim>\<open>ord\<close> of a single byte: its value in \<open>0..255\<close>.\<close>

definition ord :: "byte \<Rightarrow> int" where
  "ord b = uint b"

text \<open>
  \<^verbatim>\<open>struct.unpack('>h', bytes_data)[0]\<close>: two bytes, the high one first, read as a
  signed 16-bit integer in two's complement.
\<close>

definition unpack_h :: "byte \<Rightarrow> byte \<Rightarrow> int" where
  "unpack_h hi lo =
     (let u = 256 * uint hi + uint lo
      in if 32768 \<le> u then u - 65536 else u)"

text \<open>
  \<^verbatim>\<open>read_int16_be\<close> asks for two bytes and returns \<^verbatim>\<open>None\<close> when fewer arrive. The
  cursor has moved past a single trailing byte all the same.
\<close>

definition read_int16_be :: "stream \<Rightarrow> int option \<times> stream" where
  "read_int16_be f =
     (case read f 2 of
        (bytes_data, f') \<Rightarrow>
          if length bytes_data < 2 then (None, f')
          else (Some (unpack_h (bytes_data ! 0) (bytes_data ! 1)), f'))"

subsection \<open>Array readers\<close>

text \<open>
  \<^verbatim>\<open>read_multiple_ints(f, count)\<close>: the loop \<^verbatim>\<open>for _ in range(count)\<close> with its
  \<^verbatim>\<open>break\<close> at the first \<^verbatim>\<open>None\<close>. The loop counter is the number of iterations left.
\<close>

fun read_multiple_loop :: "nat \<Rightarrow> stream \<Rightarrow> int list \<Rightarrow> int list \<times> stream" where
  "read_multiple_loop 0 f vals = (vals, f)"
| "read_multiple_loop (Suc n) f vals =
     (case read_int16_be f of
        (None, f') \<Rightarrow> (vals, f')
      | (Some val, f') \<Rightarrow> read_multiple_loop n f' (vals @ [val]))"

text \<open>
  \<^verbatim>\<open>range(count)\<close> raises \<^verbatim>\<open>TypeError\<close> when \<open>count\<close> is \<^verbatim>\<open>None\<close> and is empty when
  \<open>count\<close> is negative.
\<close>

definition read_multiple_ints :: "stream \<Rightarrow> int option \<Rightarrow> error + (int list \<times> stream)" where
  "read_multiple_ints f count =
     (case count of
        None \<Rightarrow> Inl TypeError
      | Some c \<Rightarrow> Inr (read_multiple_loop (nat c) f []))"

fun read_flags_loop :: "nat \<Rightarrow> stream \<Rightarrow> bool list \<Rightarrow> bool list \<times> stream" where
  "read_flags_loop 0 f flags = (flags, f)"
| "read_flags_loop (Suc n) f flags =
     (case read f 1 of
        (byte, f') \<Rightarrow>
          if byte = [] then (flags, f')
          else read_flags_loop n f' (flags @ [ord (hd byte) \<noteq> 0]))"

definition read_flags :: "stream \<Rightarrow> int option \<Rightarrow> error + (bool list \<times> stream)" where
  "read_flags f count =
     (case count of
        None \<Rightarrow> Inl TypeError
      | Some c \<Rightarrow> Inr (read_flags_loop (nat c) f []))"

text \<open>
  The \<^verbatim>\<open>while True\<close> loop of \<^verbatim>\<open>read_partial_ints\<close>. With \<open>max_count < 255\<close> an entry is
  an index byte and a 16-bit value, and the index byte 255 ends the map; otherwise the
  index is a 16-bit integer and \<open>-1\<close> ends the map. An exhausted stream ends it in both
  cases. A value that could not be read is not stored.
\<close>

function read_partial_loop ::
  "stream \<Rightarrow> int \<Rightarrow> (int \<rightharpoonup> int) \<Rightarrow> (int \<rightharpoonup> int) \<times> stream" where
  "read_partial_loop f max_count vals =
     (if max_count < 255 then
        (case read f 1 of
           (index_byte, f1) \<Rightarrow>
             if index_byte = [] then (vals, f1)
             else
               let index = ord (hd index_byte) in
               if index = 255 then (vals, f1)
               else
                 (case read_int16_be f1 of
                    (val, f2) \<Rightarrow>
                      read_partial_loop f2 max_count
                        (case val of None \<Rightarrow> vals | Some v \<Rightarrow> vals(index \<mapsto> v))))
      else
        (case read_int16_be f of
           (index, f1) \<Rightarrow>
             if index = None \<or> index = Some (- 1) then (vals, f1)
             else
               (case read_int16_be f1 of
                  (val, f2) \<Rightarrow>
                    read_partial_loop f2 max_count
                      (case val of None \<Rightarrow> vals | Some v \<Rightarrow> vals(the index \<mapsto> v)))))"
  by pat_completeness auto

termination read_partial_loop
proof (relation "measure (\<lambda>(f, max_count, vals). length (data f) - pos f)", goal_cases)
  case 1
  show ?case by simp
next
  case (2 f max_count vals index_byte f1 index val f2)
  have "pos f < length (data f)"
    using 2 by (cases "pos f < length (data f)") (auto simp: read_def Let_def)
  moreover have "pos f1 = pos f + 1" and "data f1 = data f"
    using 2 \<open>pos f < length (data f)\<close> by (auto simp: read_def Let_def)
  moreover have "pos f1 \<le> pos f2" and "data f2 = data f1"
    using 2 by (auto simp: read_int16_be_def read_def Let_def split: if_splits)
  ultimately show ?case by simp
next
  case (3 f max_count vals index f1 val f2)
  have "pos f + 2 \<le> length (data f)" and "pos f1 = pos f + 2" and "data f1 = data f"
    using 3 by (auto simp: read_int16_be_def read_def Let_def split: if_splits)
  moreover have "pos f1 \<le> pos f2" and "data f2 = data f1"
    using 3 by (auto simp: read_int16_be_def read_def Let_def split: if_splits)
  ultimately show ?case by simp
qed

declare read_partial_loop.simps [simp del]

text \<open>
  \<^verbatim>\<open>read_partial_ints(f, max_count)\<close> starts the loop with an empty dictionary. The
  comparison \<^verbatim>\<open>max_count < 255\<close> raises \<^verbatim>\<open>TypeError\<close> when \<open>max_count\<close> is \<^verbatim>\<open>None\<close>.
\<close>

definition read_partial_ints ::
  "stream \<Rightarrow> int option \<Rightarrow> error + ((int \<rightharpoonup> int) \<times> stream)" where
  "read_partial_ints f max_count =
     (case max_count of
        None \<Rightarrow> Inl TypeError
      | Some c \<Rightarrow> Inr (read_partial_loop f c Map.empty))"

subsection \<open>The positional XOR codec\<close>

text \<open>The key \<^verbatim>\<open>b"IanLanceTaylorJr"\<close>, as bytes.\<close>

definition zkey :: "byte list" where
  "zkey = map of_char ''IanLanceTaylorJr''"

text \<open>
  The loop of \<^verbatim>\<open>decrypt_text\<close> over the bytes of \<open>data\<close>, with the counter \<open>x\<close> that
  starts at \<open>start_offset\<close> and grows by one per byte. \<open>x\<close> is a Python integer, so
  \<^verbatim>\<open>x & 0xf\<close> and \<^verbatim>\<open>x & 0xff\<close> are the bitwise conjunctions of unbounded integers.
\<close>

fun decrypt_loop :: "int \<Rightarrow> byte list \<Rightarrow> byte list" where
  "decrypt_loop x [] = []"
| "decrypt_loop x (encrypted_byte # rest) =
     (let key_char = zkey ! nat (x AND 15);
          position_xor = word_of_int (x AND 255);
          decrypted_byte = encrypted_byte XOR key_char XOR position_xor
      in decrypted_byte # decrypt_loop (x + 1) rest)"

definition decrypt_text :: "byte list \<Rightarrow> int \<Rightarrow> byte list" where
  "decrypt_text bs start_offset = decrypt_loop start_offset bs"

subsection \<open>Walking the metadata\<close>

text \<open>Sequencing of statements that may raise: the first exception ends the function.\<close>

definition and_then :: "error + 'a \<Rightarrow> ('a \<Rightarrow> error + 'b) \<Rightarrow> error + 'b" where
  "and_then m k = (case m of Inl e \<Rightarrow> Inl e | Inr x \<Rightarrow> k x)"

text \<open>
  The two \<^verbatim>\<open>print\<close> calls of \<^verbatim>\<open>skip_metadata\<close> whose f-strings can raise. In
  \<^verbatim>\<open>{chr(vedit) if vedit < 128 else ''}\<close> the comparison raises \<^verbatim>\<open>TypeError\<close> for
  \<^verbatim>\<open>None\<close> and \<^verbatim>\<open>chr\<close> raises \<^verbatim>\<open>ValueError\<close> for a negative number. In
  \<^verbatim>\<open>{strbit:04x}\<close> the format specification raises \<^verbatim>\<open>TypeError\<close> for \<^verbatim>\<open>None\<close>. The other
  fields are printed with \<^verbatim>\<open>{...}\<close> alone, which accepts \<^verbatim>\<open>None\<close>. The text printed is
  not modelled.
\<close>

definition print_version :: "int option \<Rightarrow> int option \<Rightarrow> int option \<Rightarrow> error + unit" where
  "print_version vmaj vmin vedit =
     (case vedit of
        None \<Rightarrow> Inl TypeError
      | Some e \<Rightarrow> if e < 128 then (if e < 0 then Inl ValueError else Inr ()) else Inr ())"

definition print_parameters :: "int option \<Rightarrow> int option \<Rightarrow> int option \<Rightarrow> error + unit" where
  "print_parameters mxscor strbit egmxsc =
     (case strbit of None \<Rightarrow> Inl TypeError | Some s \<Rightarrow> Inr ())"

text \<open>
  The blocks of \<^verbatim>\<open>skip_metadata\<close>, one definition per block, named after the comment
  that opens the block in the source. Each reads its count and then its arrays in the order
  of the source; the values read are dropped, as the source drops them. The variable
  \<open>f\<close> is rebound after each read: it is the one file object of the source.
\<close>

definition rooms_data :: "stream \<Rightarrow> error + stream" where
  "rooms_data f =
     (case read_int16_be f of (rlnt, f) \<Rightarrow>
      and_then (read_multiple_ints f rlnt) (\<lambda>(rdesc1, f).
      and_then (read_multiple_ints f rlnt) (\<lambda>(rdesc2, f).
      and_then (read_multiple_ints f rlnt) (\<lambda>(rexit, f).
      and_then (read_partial_ints f rlnt) (\<lambda>(ractio, f).
      and_then (read_partial_ints f rlnt) (\<lambda>(rval, f).
      and_then (read_multiple_ints f rlnt) (\<lambda>(rflag, f).
      Inr f)))))))"

definition exits_data :: "stream \<Rightarrow> error + stream" where
  "exits_data f =
     (case read_int16_be f of (xlnt, f) \<Rightarrow>
      and_then (read_multiple_ints f xlnt) (\<lambda>(travel, f).
      Inr f))"

definition objects_data :: "stream \<Rightarrow> error + stream" where
  "objects_data f =
     (case read_int16_be f of (olnt, f) \<Rightarrow>
      and_then (read_multiple_ints f olnt) (\<lambda>(odesc1, f).
      and_then (read_multiple_ints f olnt) (\<lambda>(odesc2, f).
      and_then (read_partial_ints f olnt) (\<lambda>(odesco, f).
      and_then (read_partial_ints f olnt) (\<lambda>(oactio, f).
      and_then (read_multiple_ints f olnt) (\<lambda>(oflag1, f).
      and_then (read_partial_ints f olnt) (\<lambda>(oflag2, f).
      and_then (read_partial_ints f olnt) (\<lambda>(ofval, f).
      and_then (read_partial_ints f olnt) (\<lambda>(otval, f).
      and_then (read_multiple_ints f olnt) (\<lambda>(osize, f).
      and_then (read_partial_ints f olnt) (\<lambda>(ocapac, f).
      and_then (read_multiple_ints f olnt) (\<lambda>(oroom, f).
      and_then (read_partial_ints f olnt) (\<lambda>(oadv, f).
      and_then (read_partial_ints f olnt) (\<lambda>(ocan, f).
      and_then (read_partial_ints f olnt) (\<lambda>(oread, f).
      Inr f)))))))))))))))"

definition secondary_room_data :: "stream \<Rightarrow> error + stream" where
  "secondary_room_data f =
     (case read_int16_be f of (r2lnt, f) \<Rightarrow>
      and_then (read_multiple_ints f r2lnt) (\<lambda>(oroom2, f).
      and_then (read_multiple_ints f r2lnt) (\<lambda>(rroom2, f).
      Inr f)))"

definition clock_events :: "stream \<Rightarrow> error + stream" where
  "clock_events f =
     (case read_int16_be f of (clnt, f) \<Rightarrow>
      and_then (read_multiple_ints f clnt) (\<lambda>(ctick, f).
      and_then (read_multiple_ints f clnt) (\<lambda>(cactio, f).
      and_then (read_flags f clnt) (\<lambda>(cflag, f).
      Inr f))))"

definition villains :: "stream \<Rightarrow> error + stream" where
  "villains f =
     (case read_int16_be f of (vlnt, f) \<Rightarrow>
      and_then (read_multiple_ints f vlnt) (\<lambda>(villns, f).
      and_then (read_partial_ints f vlnt) (\<lambda>(vprob, f).
      and_then (read_partial_ints f vlnt) (\<lambda>(vopps, f).
      and_then (read_multiple_ints f vlnt) (\<lambda>(vbest, f).
      and_then (read_multiple_ints f vlnt) (\<lambda>(vmelee, f).
      Inr f))))))"

definition adventurers :: "stream \<Rightarrow> error + stream" where
  "adventurers f =
     (case read_int16_be f of (alnt, f) \<Rightarrow>
      and_then (read_multiple_ints f alnt) (\<lambda>(aroom, f).
      and_then (read_partial_ints f alnt) (\<lambda>(ascore, f).
      and_then (read_partial_ints f alnt) (\<lambda>(avehic, f).
      and_then (read_multiple_ints f alnt) (\<lambda>(aobj, f).
      and_then (read_multiple_ints f alnt) (\<lambda>(aactio, f).
      and_then (read_multiple_ints f alnt) (\<lambda>(astren, f).
      and_then (read_partial_ints f alnt) (\<lambda>(aflag, f).
      Inr f))))))))"

text \<open>The last block reads two integers, \<open>mbase\<close> and \<open>mlnt\<close>, before its array.\<close>

definition message_metadata :: "stream \<Rightarrow> error + (int list \<times> stream)" where
  "message_metadata f =
     (case read_int16_be f of (mbase, f) \<Rightarrow>
      case read_int16_be f of (mlnt, f) \<Rightarrow>
      and_then (read_multiple_ints f mlnt) (\<lambda>(message_indices, f).
      Inr (message_indices, f)))"

text \<open>
  \<^verbatim>\<open>skip_metadata(f)\<close> returns \<^verbatim>\<open>(text_start_pos, message_indices)\<close>; the file object
  it has advanced is returned with them.
\<close>

definition skip_metadata :: "stream \<Rightarrow> error + ((nat \<times> int list) \<times> stream)" where
  "skip_metadata f =
     (case read_int16_be f of (vmaj, f) \<Rightarrow>
      case read_int16_be f of (vmin, f) \<Rightarrow>
      case read_int16_be f of (vedit, f) \<Rightarrow>
      and_then (print_version vmaj vmin vedit) (\<lambda>_.
      case read_int16_be f of (mxscor, f) \<Rightarrow>
      case read_int16_be f of (strbit, f) \<Rightarrow>
      case read_int16_be f of (egmxsc, f) \<Rightarrow>
      and_then (print_parameters mxscor strbit egmxsc) (\<lambda>_.
      and_then (rooms_data f) (\<lambda>f.
      and_then (exits_data f) (\<lambda>f.
      and_then (objects_data f) (\<lambda>f.
      and_then (secondary_room_data f) (\<lambda>f.
      and_then (clock_events f) (\<lambda>f.
      and_then (villains f) (\<lambda>f.
      and_then (adventurers f) (\<lambda>f.
      and_then (message_metadata f) (\<lambda>(message_indices, f).
      let text_start_pos = tell f
      in Inr ((text_start_pos, message_indices), f))))))))))))"

subsection \<open>Cutting the decrypted bytes into messages\<close>

text \<open>
  A Python \<^verbatim>\<open>str\<close> is the list of its code points. \<^verbatim>\<open>decode('ascii', errors='replace')\<close>
  keeps a byte below 128 and replaces any other byte by U+FFFD (65533); it never raises.
\<close>

type_synonym pystr = "nat list"

definition py_str :: "string \<Rightarrow> pystr" where
  "py_str cs = map of_char cs"

definition decode_ascii_replace :: "byte list \<Rightarrow> pystr" where
  "decode_ascii_replace bs = map (\<lambda>b. if unat b < 128 then unat b else 65533) bs"

text \<open>
  \<^verbatim>\<open>str.isprintable\<close> on the code points that \<open>decode_ascii_replace\<close> produces: of the
  ASCII characters the printable ones are \<open>32..126\<close>, and U+FFFD (a symbol, category So) is
  printable. \<open>acceptable\<close> is the test \<^verbatim>\<open>c.isprintable() or c in '\n\r\t'\<close>.
\<close>

definition isprintable :: "nat \<Rightarrow> bool" where
  "isprintable c = (if c < 128 then 32 \<le> c \<and> c \<le> 126 else c = 65533)"

definition acceptable :: "nat \<Rightarrow> bool" where
  "acceptable c = (isprintable c \<or> c \<in> {10, 13, 9})"

text \<open>
  The quality of the decryption (lines 214 and 215): the number of bytes that satisfy
  \<^verbatim>\<open>32 <= b <= 126 or b in (9, 10, 13, 0)\<close>, divided by the number of bytes, and 0 for no
  bytes. Python divides in floating point; the model is the exact quotient.
\<close>

definition printable_count :: "byte list \<Rightarrow> nat" where
  "printable_count decrypted_data =
     length (filter (\<lambda>b. (32 \<le> uint b \<and> uint b \<le> 126) \<or> uint b \<in> {9, 10, 13, 0})
       decrypted_data)"

definition quality :: "byte list \<Rightarrow> rat" where
  "quality decrypted_data =
     (if length decrypted_data > 0
      then of_nat (printable_count decrypted_data) / of_nat (length decrypted_data)
      else 0)"

text \<open>\<^verbatim>\<open>chunk.find(b'\0')\<close>: the index of the first such byte, or \<open>-1\<close>.\<close>

fun find_from :: "byte \<Rightarrow> byte list \<Rightarrow> nat \<Rightarrow> int" where
  "find_from z [] i = - 1"
| "find_from z (b # bs) i = (if b = z then int i else find_from z bs (i + 1))"

definition find_byte :: "byte list \<Rightarrow> byte \<Rightarrow> int" where
  "find_byte chunk z = find_from z chunk 0"

text \<open>\<^verbatim>\<open>range(0, n, 8)\<close>.\<close>

definition range_by_8 :: "nat \<Rightarrow> nat list" where
  "range_by_8 n = filter (\<lambda>i. i mod 8 = 0) [0..<n]"

text \<open>
  The first extraction (lines 220 to 236): the records of eight bytes, each cut at its
  first zero byte, kept when not empty and when some character is acceptable.
\<close>

fun fixed_stride_loop :: "byte list \<Rightarrow> nat list \<Rightarrow> pystr list \<Rightarrow> pystr list" where
  "fixed_stride_loop decrypted_data [] messages = messages"
| "fixed_stride_loop decrypted_data (i # rest) messages =
     (let chunk = take 8 (drop i decrypted_data);
          null_pos = find_byte chunk 0;
          chunk = (if null_pos \<noteq> - 1 then take (nat null_pos) chunk else chunk)
      in if length chunk > 0 then
           (let text = decode_ascii_replace chunk
            in if list_ex acceptable text
               then fixed_stride_loop decrypted_data rest (messages @ [text])
               else fixed_stride_loop decrypted_data rest messages)
         else fixed_stride_loop decrypted_data rest messages)"

definition fixed_stride :: "byte list \<Rightarrow> pystr list" where
  "fixed_stride decrypted_data =
     fixed_stride_loop decrypted_data (range_by_8 (length decrypted_data)) []"

text \<open>
  The second extraction (lines 239 to 261), with its two variables \<open>current_string\<close> and
  \<open>continuous_messages\<close>. A zero byte flushes a run longer than two bytes when more than
  0.7 of its characters are acceptable; a byte that is neither printable ASCII nor tab,
  newline or carriage return flushes a run longer than two bytes without that test. What
  has been collected when the bytes end is not flushed.
\<close>

fun continuous_loop :: "byte list \<Rightarrow> byte list \<Rightarrow> pystr list \<Rightarrow> pystr list" where
  "continuous_loop [] current_string continuous_messages = continuous_messages"
| "continuous_loop (byte # rest) current_string continuous_messages =
     (if uint byte = 0 then
        continuous_loop rest []
          (if length current_string > 2 then
             (let text = decode_ascii_replace current_string
              in if (of_nat (length (filter acceptable text)) / of_nat (length text) :: rat)
                      > 7 / 10
                 then continuous_messages @ [text]
                 else continuous_messages)
           else continuous_messages)
      else if (32 \<le> uint byte \<and> uint byte \<le> 126) \<or> uint byte \<in> {9, 10, 13} then
        continuous_loop rest (current_string @ [byte]) continuous_messages
      else
        continuous_loop rest []
          (if length current_string > 2
           then continuous_messages @ [decode_ascii_replace current_string]
           else continuous_messages))"

definition continuous_run :: "byte list \<Rightarrow> pystr list" where
  "continuous_run decrypted_data = continuous_loop decrypted_data [] []"

text \<open>
  The part of \<^verbatim>\<open>extract_messages\<close> that works on the decrypted bytes (lines 213 to
  267): the quality, the two extractions, and the choice between them (lines 263 to 265),
  where the second list replaces the first when it is strictly longer.
\<close>

definition segment :: "byte list \<Rightarrow> pystr list \<times> rat" where
  "segment decrypted_data =
     (let messages = fixed_stride decrypted_data;
          continuous_messages = continuous_run decrypted_data;
          messages = (if length continuous_messages > length messages
                      then continuous_messages else messages)
      in (messages, quality decrypted_data))"

text \<open>
  \<^verbatim>\<open>extract_messages(f, start_pos, message_indices)\<close>: everything from \<open>start_pos\<close> on
  is decrypted with the counter starting at 0, then segmented. \<open>message_indices\<close> is not
  used.
\<close>

definition extract_messages :: "stream \<Rightarrow> nat \<Rightarrow> int list \<Rightarrow> pystr list \<times> rat" where
  "extract_messages f start_pos message_indices =
     (let f = seek f start_pos;
          (encrypted_data, f) = read_all f;
          decrypted_data = decrypt_text encrypted_data 0
      in segment decrypted_data)"

text \<open>
  The two calls of \<^verbatim>\<open>main\<close> on the opened file (lines 295 and 298): \<^verbatim>\<open>skip_metadata\<close>
  and then \<^verbatim>\<open>extract_messages\<close> at the offset it returned.
\<close>

definition pipeline :: "byte list \<Rightarrow> error + (pystr list \<times> rat)" where
  "pipeline file =
     and_then (skip_metadata \<lparr>data = file, pos = 0\<rparr>) (\<lambda>((text_start, message_indices), f).
     Inr (extract_messages f text_start message_indices))"

subsection \<open>The layout as the specification words it\<close>

text \<open>
  The specification describes a schema section as a leading 16-bit count followed by a
  fixed, ordered list of dense, sparse and flag reads, each with that count. The three
  definitions below follow these words; they are compared with the blocks of
  \<^verbatim>\<open>skip_metadata\<close> further down.
\<close>

datatype field_kind = DenseArray | SparseMap | FlagArray

fun read_field :: "field_kind \<Rightarrow> int option \<Rightarrow> stream \<Rightarrow> error + stream" where
  "read_field DenseArray count f = and_then (read_multiple_ints f count) (\<lambda>(vals, f). Inr f)"
| "read_field SparseMap count f = and_then (read_partial_ints f count) (\<lambda>(vals, f). Inr f)"
| "read_field FlagArray count f = and_then (read_flags f count) (\<lambda>(flags, f). Inr f)"

fun read_fields :: "field_kind list \<Rightarrow> int option \<Rightarrow> stream \<Rightarrow> error + stream" where
  "read_fields [] count f = Inr f"
| "read_fields (kind # kinds) count f =
     and_then (read_field kind count f) (read_fields kinds count)"

definition schema_section :: "field_kind list \<Rightarrow> stream \<Rightarrow> error + stream" where
  "schema_section kinds f = (case read_int16_be f of (count, f) \<Rightarrow> read_fields kinds count f)"

text \<open>
  The message-index section in the same words: one count and then a dense array of that
  many integers, whose values are kept.
\<close>

definition message_index_section :: "stream \<Rightarrow> error + (int list \<times> stream)" where
  "message_index_section f =
     (case read_int16_be f of (count, f) \<Rightarrow> read_multiple_ints f count)"

text \<open>
  The byte set of the quality ratio in the words of the specification:
  \<open>{9, 10, 13, 0}\<close> together with \<open>[32, 126]\<close>.
\<close>

definition allowed_byte :: "byte \<Rightarrow> bool" where
  "allowed_byte b = (uint b \<in> {9, 10, 13, 0} \<union> {32..126})"

subsection \<open>A synthetic file\<close>

text \<open>
  The bytes of the seven sections from rooms to adventurers when each declares the count 0:
  the count itself, and the byte 255 that closes each sparse field (two for rooms, nine for
  objects, two for villains, three for adventurers). Dense and flag fields of length 0 take
  no bytes.
\<close>

definition empty_sections :: "byte list" where
  "empty_sections =
     [0, 0, 255, 255] @
     [0, 0] @
     [0, 0, 255, 255, 255, 255, 255, 255, 255, 255, 255] @
     [0, 0] @
     [0, 0] @
     [0, 0, 255, 255] @
     [0, 0, 255, 255, 255]"

text \<open>The twelve bytes of \<^verbatim>\<open>"HELLO\0WORLD\0"\<close>.\<close>

definition hello_world :: "byte list" where
  "hello_world = map of_char ''HELLO'' @ [0] @ map of_char ''WORLD'' @ [0]"

subsection \<open>Byte layouts used in the statements\<close>

text \<open>
  One entry of a sparse field whose section count is below 255: the index byte and the two
  bytes of the value; \<open>pair8\<close> is the index and the value that the entry stands for.
\<close>

fun entry8 :: "byte \<times> byte \<times> byte \<Rightarrow> byte list" where
  "entry8 (i, hi, lo) = [i, hi, lo]"

fun pair8 :: "byte \<times> byte \<times> byte \<Rightarrow> int \<times> int" where
  "pair8 (i, hi, lo) = (ord i, unpack_h hi lo)"

text \<open>The same for a section count of 255 or more: the index takes two bytes.\<close>

fun entry16 :: "byte \<times> byte \<times> byte \<times> byte \<Rightarrow> byte list" where
  "entry16 (ih, il, hi, lo) = [ih, il, hi, lo]"

fun pair16 :: "byte \<times> byte \<times> byte \<times> byte \<Rightarrow> int \<times> int" where
  "pair16 (ih, il, hi, lo) = (unpack_h ih il, unpack_h hi lo)"

text \<open>One element of a dense array: two bytes, and the integer they stand for.\<close>

fun dense_entry :: "byte \<times> byte \<Rightarrow> byte list" where
  "dense_entry (hi, lo) = [hi, lo]"

fun dense_value :: "byte \<times> byte \<Rightarrow> int" where
  "dense_value (hi, lo) = unpack_h hi lo"

text \<open>
  Two plain texts for the segmenter. In \<open>five_runs\<close> five runs of three letters end in a
  zero byte each, so that three records of eight bytes hold them; \<open>one_run\<close> is a single
  run.
\<close>

definition five_runs :: "byte list" where
  "five_runs =
     map of_char ''abc'' @ [0] @ map of_char ''def'' @ [0] @
     map of_char ''ghi'' @ [0] @ map of_char ''jkl'' @ [0] @
     map of_char ''mno'' @ [0, 0, 0, 0, 0]"

definition one_run :: "byte list" where
  "one_run = map of_char ''abc'' @ [0]"

section \<open>Properties\<close>

subsection \<open>The codec\<close>

lemma and_15_mod_16: "(x::int) AND 15 = x mod 16"
  using take_bit_eq_mask [of 4 x] take_bit_eq_mod [of 4 x] by (simp add: mask_eq_exp_minus_1)

lemma and_255_mod_256: "(x::int) AND 255 = x mod 256"
  using take_bit_eq_mask [of 8 x] take_bit_eq_mod [of 8 x] by (simp add: mask_eq_exp_minus_1)

lemma length_decrypt_loop: "length (decrypt_loop x bs) = length bs"
  by (induction bs arbitrary: x) (simp_all add: Let_def)

lemma decrypt_loop_nth:
  "i < length bs \<Longrightarrow>
   decrypt_loop x bs ! i =
     bs ! i XOR zkey ! nat ((x + int i) AND 15) XOR word_of_int ((x + int i) AND 255)"
proof (induction bs arbitrary: x i)
  case Nil
  then show ?case by simp
next
  case (Cons b bs)
  show ?case
  proof (cases i)
    case 0
    then show ?thesis by (simp add: Let_def)
  next
    case (Suc j)
    with Cons.prems have "j < length bs" by simp
    from Cons.IH [OF this, of "x + 1"] Suc show ?thesis
      by (simp add: Let_def add.assoc)
  qed
qed

lemma decrypt_loop_twice: "decrypt_loop x (decrypt_loop x bs) = bs"
  by (induction bs arbitrary: x) (simp_all add: Let_def xor.assoc xor.left_commute)

text \<open>
  Claim C6. For every byte sequence and every start counter \<open>c\<close> (the non-negative ones
  among them), \<^verbatim>\<open>decrypt_text\<close> returns as many bytes as it was given, and the byte at
  index \<open>i\<close> is the input byte XOR \<open>key[x mod 16]\<close> XOR \<open>x mod 256\<close> with \<open>x = c + i\<close>, where
  the key is the 16 bytes of \<^verbatim>\<open>IanLanceTaylorJr\<close>. The function has no error result: it
  is defined on every input.
\<close>

theorem decrypt_text_formula:
  "length (decrypt_text bs c) = length bs \<and>
   zkey = map of_char ''IanLanceTaylorJr'' \<and> length zkey = 16 \<and>
   (\<forall>i < length bs.
      decrypt_text bs c ! i =
        bs ! i XOR zkey ! nat ((c + int i) mod 16) XOR word_of_int ((c + int i) mod 256))"
  by (simp add: decrypt_text_def length_decrypt_loop decrypt_loop_nth and_15_mod_16
      and_255_mod_256 zkey_def)

theorem decrypt_text_formula_witness:
  "(1::nat) < length [1, 37 :: byte] \<and>
   decrypt_text [1, 37] 0 ! 1 = 69 \<and>
   (37 :: byte) XOR zkey ! nat ((0 + int 1) mod 16) XOR word_of_int ((0 + int 1) mod 256) = 69"
  using decrypt_text_formula [of "[1, 37]" 0]
  by (simp add: zkey_def)

text \<open>
  Claim C7. Decrypting twice with the same start counter gives the original bytes back,
  for every byte sequence and every start counter.
\<close>

theorem decrypt_text_involution: "decrypt_text (decrypt_text bs c) c = bs"
  by (simp add: decrypt_text_def decrypt_loop_twice)

subsection \<open>The segmenter\<close>

text \<open>
  Claim C9. \<^verbatim>\<open>extract_messages\<close> runs both extractions on the decrypted bytes and returns
  the list of the one that produced more strings: the continuous-run list when it is
  strictly longer than the fixed-stride list, the fixed-stride list when that one is
  strictly longer. In the witness the fixed-stride extraction yields 3 strings and the
  continuous-run extraction 5, and the 5 are returned.
\<close>

theorem extract_messages_takes_longer_list:
  "(length (fixed_stride (decrypt_text (drop start_pos (data f)) 0))
      < length (continuous_run (decrypt_text (drop start_pos (data f)) 0)) \<longrightarrow>
    fst (extract_messages f start_pos message_indices)
      = continuous_run (decrypt_text (drop start_pos (data f)) 0)) \<and>
   (length (continuous_run (decrypt_text (drop start_pos (data f)) 0))
      < length (fixed_stride (decrypt_text (drop start_pos (data f)) 0)) \<longrightarrow>
    fst (extract_messages f start_pos message_indices)
      = fixed_stride (decrypt_text (drop start_pos (data f)) 0))"
  by (simp add: extract_messages_def seek_def read_all_def segment_def Let_def)

theorem extract_messages_takes_longer_list_witness:
  "length (fixed_stride (decrypt_text (drop 0 (decrypt_text five_runs 0)) 0)) = 3 \<and>
   length (continuous_run (decrypt_text (drop 0 (decrypt_text five_runs 0)) 0)) = 5 \<and>
   fst (extract_messages \<lparr>data = decrypt_text five_runs 0, pos = 0\<rparr> 0 [])
     = [py_str ''abc'', py_str ''def'', py_str ''ghi'', py_str ''jkl'', py_str ''mno'']"
proof -
  have d: "decrypt_text (decrypt_text five_runs 0) 0 = five_runs"
    by (simp only: decrypt_text_def decrypt_loop_twice)
  have fixed: "fixed_stride five_runs = [py_str ''abc'', py_str ''ghi'', py_str ''mno'']"
    by code_simp
  have cont: "continuous_run five_runs
      = [py_str ''abc'', py_str ''def'', py_str ''ghi'', py_str ''jkl'', py_str ''mno'']"
    by code_simp
  show ?thesis
    using extract_messages_takes_longer_list
      [of 0 "\<lparr>data = decrypt_text five_runs 0, pos = 0\<rparr>" "[]"]
    by (simp add: d fixed cont)
qed

text \<open>
  Claim C10. When the two extractions produce equally many strings (none at all
  included), \<^verbatim>\<open>extract_messages\<close> returns the fixed-stride list: the comparison that
  lets the continuous-run list replace it is a strict one.
\<close>

theorem extract_messages_tie:
  "length (continuous_run (decrypt_text (drop start_pos (data f)) 0))
     = length (fixed_stride (decrypt_text (drop start_pos (data f)) 0)) \<longrightarrow>
   fst (extract_messages f start_pos message_indices)
     = fixed_stride (decrypt_text (drop start_pos (data f)) 0)"
  by (simp add: extract_messages_def seek_def read_all_def segment_def Let_def)

theorem extract_messages_tie_witness:
  "length (continuous_run (decrypt_text (drop 0 (decrypt_text one_run 0)) 0)) = 1 \<and>
   length (fixed_stride (decrypt_text (drop 0 (decrypt_text one_run 0)) 0)) = 1 \<and>
   fst (extract_messages \<lparr>data = decrypt_text one_run 0, pos = 0\<rparr> 0 []) = [py_str ''abc'']"
proof -
  have d: "decrypt_text (decrypt_text one_run 0) 0 = one_run"
    by (simp only: decrypt_text_def decrypt_loop_twice)
  have fixed: "fixed_stride one_run = [py_str ''abc'']"
    by code_simp
  have cont: "continuous_run one_run = [py_str ''abc'']"
    by code_simp
  show ?thesis
    using extract_messages_tie [of 0 "\<lparr>data = decrypt_text one_run 0, pos = 0\<rparr>" "[]"]
    by (simp add: d fixed cont)
qed

subsection \<open>The quality ratio\<close>

lemma printable_count_allowed: "printable_count d = length (filter allowed_byte d)"
proof -
  have "\<And>b. ((32 \<le> uint b \<and> uint b \<le> 126) \<or> uint b \<in> {9, 10, 13, 0}) = allowed_byte b"
    by (auto simp: allowed_byte_def)
  then show ?thesis by (simp add: printable_count_def)
qed

lemma filter_length_eq_iff: "length (filter P xs) = length xs \<longleftrightarrow> (\<forall>x \<in> set xs. P x)"
  by (metis filter_id_conv length_filter_less less_irrefl)

lemma filter_length_0_iff: "length (filter P xs) = 0 \<longleftrightarrow> (\<forall>x \<in> set xs. \<not> P x)"
  by (simp add: filter_empty_conv)

text \<open>
  Claim C4 as written fails in both directions. The ratio of the one byte 128 is 0
  although the input is not empty, and the ratio of the empty input is 0, not 1, although
  every byte of it lies in the allowed set.
\<close>

theorem quality_counterexample:
  "\<not> (quality [128] = 0 \<longleftrightarrow> [128 :: byte] = []) \<and>
   \<not> (quality [] = 1 \<longleftrightarrow> (\<forall>b \<in> set ([] :: byte list). allowed_byte b))"
  by (simp add: quality_def printable_count_def)

text \<open>
  Claim C4, amended. The quality ratio is the number of bytes in \<open>{9, 10, 13, 0}\<close> or
  \<open>[32, 126]\<close> divided by the number of bytes, and 0 for the empty input. It is 0 if and
  only if no byte lies in that set (the empty input is one such case), and 1 if and only if
  the input is not empty and every byte lies in that set.
\<close>

theorem quality_ratio:
  "quality d
     = (if d = [] then 0 else of_nat (length (filter allowed_byte d)) / of_nat (length d)) \<and>
   (quality d = 0 \<longleftrightarrow> (\<forall>b \<in> set d. \<not> allowed_byte b)) \<and>
   (quality d = 1 \<longleftrightarrow> d \<noteq> [] \<and> (\<forall>b \<in> set d. allowed_byte b))"
proof (cases "d = []")
  case True
  then show ?thesis by (simp add: quality_def)
next
  case False
  then have len: "length d > 0" by simp
  have q: "quality d = of_nat (length (filter allowed_byte d)) / of_nat (length d)"
    using len by (simp add: quality_def printable_count_allowed)
  have zero: "quality d = 0 \<longleftrightarrow> length (filter allowed_byte d) = 0"
    using len by (simp add: q)
  have one: "quality d = 1 \<longleftrightarrow> length (filter allowed_byte d) = length d"
    using len by (auto simp: q)
  show ?thesis
    using False q zero one filter_length_eq_iff [of allowed_byte d]
      filter_length_0_iff [of allowed_byte d] by simp
qed

theorem quality_ratio_witness:
  "quality [72, 0, 128, 10] = 3 / 4 \<and>
   quality [72, 0] = 1 \<and> allowed_byte 72 \<and> allowed_byte 0 \<and>
   quality [128, 200] = 0 \<and> \<not> allowed_byte 128 \<and> \<not> allowed_byte 200"
  using quality_ratio [of "[72, 0, 128, 10]"] quality_ratio [of "[72, 0]"]
    quality_ratio [of "[128, 200]"]
  by (simp add: allowed_byte_def)

subsection \<open>The sparse reader\<close>

lemma read_1_at:
  "data f = pre @ b # rest \<Longrightarrow> pos f = length pre \<Longrightarrow>
   read f 1 = ([b], f\<lparr>pos := length pre + 1\<rparr>)"
  by (simp add: read_def Let_def)

lemma read_int16_be_at:
  "data f = pre @ hi # lo # rest \<Longrightarrow> pos f = length pre \<Longrightarrow>
   read_int16_be f = (Some (unpack_h hi lo), f\<lparr>pos := length pre + 2\<rparr>)"
  by (simp add: read_int16_be_def read_def Let_def)

lemma unpack_h_sentinel: "unpack_h 255 255 = - 1"
  by (simp add: unpack_h_def)

lemma ord_sentinel: "ord 255 = 255"
  by (simp add: ord_def)

lemma map_add_rev_Cons:
  "vals ++ map_of (rev (kv # kvs)) = (vals(fst kv \<mapsto> snd kv)) ++ map_of (rev kvs)"
  by (cases kv) (simp add: map_add_upd_left fun_eq_iff map_add_def split: option.splits)

text \<open>
  The loop with one-byte indices, run on a stream that holds the entries \<open>es\<close> from the
  cursor on and then either ends or goes on with the byte 255.
\<close>

lemma read_partial_loop_bytes:
  assumes "max_count < 255"
  shows "\<forall>e \<in> set es. fst (pair8 e) \<noteq> 255 \<Longrightarrow>
    data f = pre @ concat (map entry8 es) @ tail \<Longrightarrow> pos f = length pre \<Longrightarrow>
    tail = [] \<or> hd tail = 255 \<Longrightarrow>
    read_partial_loop f max_count vals =
      (vals ++ map_of (rev (map pair8 es)),
       f\<lparr>pos := length pre + 3 * length es + (if tail = [] then 0 else 1)\<rparr>)"
proof (induction es arbitrary: f pre vals)
  case Nil
  note prems = Nil.prems
  show ?case
  proof (cases tail)
    case Nil
    with prems have "read f 1 = ([], f)" by (simp add: read_def Let_def)
    with assms Nil prems show ?thesis
      by (simp add: read_partial_loop.simps [of f])
  next
    case (Cons b rest)
    with prems have b: "b = 255" by simp
    from prems Cons have "read f 1 = ([b], f\<lparr>pos := length pre + 1\<rparr>)"
      by (intro read_1_at [where rest = rest]) simp_all
    with assms Cons b show ?thesis
      by (simp add: read_partial_loop.simps [of f] ord_sentinel)
  qed
next
  case (Cons e es)
  obtain i hi lo where e: "e = (i, hi, lo)" by (cases e) auto
  let ?f1 = "f\<lparr>pos := length pre + 1\<rparr>"
  let ?f2 = "f\<lparr>pos := length pre + 3\<rparr>"
  have r1: "read f 1 = ([i], ?f1)"
    using Cons.prems e
    by (intro read_1_at [where rest = "hi # lo # concat (map entry8 es) @ tail"]) simp_all
  have r2: "read_int16_be ?f1 = (Some (unpack_h hi lo), ?f2)"
    using Cons.prems e
      read_int16_be_at [of ?f1 "pre @ [i]" hi lo "concat (map entry8 es) @ tail"]
    by simp
  have ni: "ord i \<noteq> 255" using Cons.prems e by simp
  have step: "read_partial_loop f max_count vals
      = read_partial_loop ?f2 max_count (vals(ord i \<mapsto> unpack_h hi lo))"
    using assms r1 r2 ni by (simp add: read_partial_loop.simps [of f])
  have "read_partial_loop ?f2 max_count (vals(ord i \<mapsto> unpack_h hi lo))
      = ((vals(ord i \<mapsto> unpack_h hi lo)) ++ map_of (rev (map pair8 es)),
         ?f2\<lparr>pos := length (pre @ [i, hi, lo]) + 3 * length es
                  + (if tail = [] then 0 else 1)\<rparr>)"
    using Cons.prems e by (intro Cons.IH) simp_all
  with step e show ?case
    using map_add_rev_Cons [of vals "pair8 e" "map pair8 es"]
    by simp
qed

text \<open>The loop with two-byte indices, on entries followed by nothing or by 255, 255.\<close>

lemma read_partial_loop_words:
  assumes "255 \<le> max_count"
  shows "\<forall>e \<in> set es. fst (pair16 e) \<noteq> - 1 \<Longrightarrow>
    data f = pre @ concat (map entry16 es) @ tail \<Longrightarrow> pos f = length pre \<Longrightarrow>
    tail = [] \<or> take 2 tail = [255, 255] \<Longrightarrow>
    read_partial_loop f max_count vals =
      (vals ++ map_of (rev (map pair16 es)),
       f\<lparr>pos := length pre + 4 * length es + (if tail = [] then 0 else 2)\<rparr>)"
proof (induction es arbitrary: f pre vals)
  case Nil
  note prems = Nil.prems
  show ?case
  proof (cases "tail = []")
    case True
    with prems have "read_int16_be f = (None, f)"
      by (simp add: read_int16_be_def read_def Let_def)
    with assms True prems show ?thesis
      by (simp add: read_partial_loop.simps [of f])
  next
    case False
    with prems obtain rest where tail: "tail = 255 # 255 # rest"
      by (cases tail; cases "tl tail") auto
    with prems have "read_int16_be f = (Some (unpack_h 255 255), f\<lparr>pos := length pre + 2\<rparr>)"
      by (intro read_int16_be_at [where rest = rest]) simp_all
    with assms tail show ?thesis
      by (simp add: read_partial_loop.simps [of f] unpack_h_sentinel)
  qed
next
  case (Cons e es)
  obtain ih il hi lo where e: "e = (ih, il, hi, lo)" by (cases e) auto
  let ?f1 = "f\<lparr>pos := length pre + 2\<rparr>"
  let ?f2 = "f\<lparr>pos := length pre + 4\<rparr>"
  have r1: "read_int16_be f = (Some (unpack_h ih il), ?f1)"
    using Cons.prems e
    by (intro read_int16_be_at [where rest = "hi # lo # concat (map entry16 es) @ tail"])
      simp_all
  have r2: "read_int16_be ?f1 = (Some (unpack_h hi lo), ?f2)"
    using Cons.prems e
      read_int16_be_at [of ?f1 "pre @ [ih, il]" hi lo "concat (map entry16 es) @ tail"]
    by simp
  have ni: "unpack_h ih il \<noteq> - 1" using Cons.prems e by simp
  have step: "read_partial_loop f max_count vals
      = read_partial_loop ?f2 max_count (vals(unpack_h ih il \<mapsto> unpack_h hi lo))"
    using assms r1 r2 ni by (simp add: read_partial_loop.simps [of f])
  have "read_partial_loop ?f2 max_count (vals(unpack_h ih il \<mapsto> unpack_h hi lo))
      = ((vals(unpack_h ih il \<mapsto> unpack_h hi lo)) ++ map_of (rev (map pair16 es)),
         ?f2\<lparr>pos := length (pre @ [ih, il, hi, lo]) + 4 * length es
                  + (if tail = [] then 0 else 2)\<rparr>)"
    using Cons.prems e by (intro Cons.IH) simp_all
  with step e show ?case
    using map_add_rev_Cons [of vals "pair16 e" "map pair16 es"]
    by simp
qed

text \<open>
  Claim C8. \<^verbatim>\<open>read_partial_ints\<close> branches on the declared count. Below 255, an entry is
  an index byte and a value; on a stream that holds entries whose index bytes are not 255
  and then the byte 255, the reader returns exactly those entries and leaves the cursor
  right behind the 255, whatever follows. From 255 on, the index is a signed 16-bit
  integer; on entries whose indices are not \<open>-1\<close> followed by the two bytes of \<open>-1\<close> the
  reader returns exactly those entries and leaves the cursor right behind the \<open>-1\<close>. In
  both branches a stream that ends after the entries gives the same map with the cursor at
  its end. The map is \<open>map_of\<close> of the entries in reverse order: of two entries with the same
  index the later one is the one found.
\<close>

theorem read_partial_ints_sentinel:
  "(max_count < 255 \<and> (\<forall>e \<in> set es. fst (pair8 e) \<noteq> 255) \<longrightarrow>
      read_partial_ints
        \<lparr>data = pre @ concat (map entry8 es) @ 255 # rest, pos = length pre\<rparr> (Some max_count)
      = Inr (map_of (rev (map pair8 es)),
          \<lparr>data = pre @ concat (map entry8 es) @ 255 # rest,
           pos = length pre + 3 * length es + 1\<rparr>) \<and>
      read_partial_ints
        \<lparr>data = pre @ concat (map entry8 es), pos = length pre\<rparr> (Some max_count)
      = Inr (map_of (rev (map pair8 es)),
          \<lparr>data = pre @ concat (map entry8 es), pos = length pre + 3 * length es\<rparr>)) \<and>
   (255 \<le> max_count \<and> (\<forall>e \<in> set ws. fst (pair16 e) \<noteq> - 1) \<longrightarrow>
      read_partial_ints
        \<lparr>data = pre @ concat (map entry16 ws) @ 255 # 255 # rest, pos = length pre\<rparr>
        (Some max_count)
      = Inr (map_of (rev (map pair16 ws)),
          \<lparr>data = pre @ concat (map entry16 ws) @ 255 # 255 # rest,
           pos = length pre + 4 * length ws + 2\<rparr>) \<and>
      read_partial_ints
        \<lparr>data = pre @ concat (map entry16 ws), pos = length pre\<rparr> (Some max_count)
      = Inr (map_of (rev (map pair16 ws)),
          \<lparr>data = pre @ concat (map entry16 ws), pos = length pre + 4 * length ws\<rparr>))"
proof (intro conjI impI)
  assume a: "max_count < 255 \<and> (\<forall>e \<in> set es. fst (pair8 e) \<noteq> 255)"
  let ?f = "\<lparr>data = pre @ concat (map entry8 es) @ 255 # rest, pos = length pre\<rparr>"
  from a read_partial_loop_bytes [of max_count es ?f pre "255 # rest" Map.empty]
  show "read_partial_ints ?f (Some max_count)
      = Inr (map_of (rev (map pair8 es)),
          \<lparr>data = pre @ concat (map entry8 es) @ 255 # rest,
           pos = length pre + 3 * length es + 1\<rparr>)"
    by (simp add: read_partial_ints_def)
  let ?g = "\<lparr>data = pre @ concat (map entry8 es), pos = length pre\<rparr>"
  from a read_partial_loop_bytes [of max_count es ?g pre "[]" Map.empty]
  show "read_partial_ints ?g (Some max_count)
      = Inr (map_of (rev (map pair8 es)),
          \<lparr>data = pre @ concat (map entry8 es), pos = length pre + 3 * length es\<rparr>)"
    by (simp add: read_partial_ints_def)
next
  assume a: "255 \<le> max_count \<and> (\<forall>e \<in> set ws. fst (pair16 e) \<noteq> - 1)"
  let ?f = "\<lparr>data = pre @ concat (map entry16 ws) @ 255 # 255 # rest, pos = length pre\<rparr>"
  from a read_partial_loop_words [of max_count ws ?f pre "255 # 255 # rest" Map.empty]
  show "read_partial_ints ?f (Some max_count)
      = Inr (map_of (rev (map pair16 ws)),
          \<lparr>data = pre @ concat (map entry16 ws) @ 255 # 255 # rest,
           pos = length pre + 4 * length ws + 2\<rparr>)"
    by (simp add: read_partial_ints_def)
  let ?g = "\<lparr>data = pre @ concat (map entry16 ws), pos = length pre\<rparr>"
  from a read_partial_loop_words [of max_count ws ?g pre "[]" Map.empty]
  show "read_partial_ints ?g (Some max_count)
      = Inr (map_of (rev (map pair16 ws)),
          \<lparr>data = pre @ concat (map entry16 ws), pos = length pre + 4 * length ws\<rparr>)"
    by (simp add: read_partial_ints_def)
qed

theorem read_partial_ints_sentinel_witness:
  "(10 :: int) < 255 \<and> fst (pair8 (1, 0, 5)) \<noteq> 255 \<and> fst (pair8 (3, 255, 254)) \<noteq> 255 \<and>
   (case read_partial_ints \<lparr>data = [9, 1, 0, 5, 3, 255, 254, 1, 0, 7, 255, 8, 8], pos = 1\<rparr>
           (Some 10) of
      Inl e \<Rightarrow> False
    | Inr (m, f) \<Rightarrow> m 1 = Some 7 \<and> m 3 = Some (- 2) \<and> m 0 = None \<and> pos f = 11) \<and>
   (255 :: int) \<le> 300 \<and> fst (pair16 (0, 1, 0, 5)) \<noteq> - 1 \<and>
   (case read_partial_ints \<lparr>data = [9, 0, 1, 0, 5, 255, 254, 0, 6, 0, 1, 0, 7, 255, 255, 8, 8],
           pos = 1\<rparr> (Some 300) of
      Inl e \<Rightarrow> False
    | Inr (m, f) \<Rightarrow> m 1 = Some 7 \<and> m (- 2) = Some 6 \<and> m 0 = None \<and> pos f = 15)"
  using
    read_partial_ints_sentinel
      [where max_count = 10 and es = "[(1, 0, 5), (3, 255, 254), (1, 0, 7)]" and pre = "[9]"
        and rest = "[8, 8]"]
    read_partial_ints_sentinel
      [where max_count = 300 and ws = "[(0, 1, 0, 5), (255, 254, 0, 6), (0, 1, 0, 7)]"
        and pre = "[9]" and rest = "[8, 8]"]
  by (simp add: ord_def unpack_h_def)

subsection \<open>The blocks of the walk\<close>

lemma read_multiple_loop_dense:
  "data f = pre @ concat (map dense_entry ws) @ rest \<Longrightarrow> pos f = length pre \<Longrightarrow>
   read_multiple_loop (length ws) f vals
     = (vals @ map dense_value ws, f\<lparr>pos := length pre + 2 * length ws\<rparr>)"
proof (induction ws arbitrary: f pre vals)
  case Nil
  then show ?case by simp
next
  case (Cons w ws)
  obtain hi lo where w: "w = (hi, lo)" by (cases w)
  let ?f1 = "f\<lparr>pos := length pre + 2\<rparr>"
  have r: "read_int16_be f = (Some (unpack_h hi lo), ?f1)"
    using Cons.prems w
    by (intro read_int16_be_at [where rest = "concat (map dense_entry ws) @ rest"]) simp_all
  have "read_multiple_loop (length ws) ?f1 (vals @ [unpack_h hi lo])
      = ((vals @ [unpack_h hi lo]) @ map dense_value ws,
         ?f1\<lparr>pos := length (pre @ [hi, lo]) + 2 * length ws\<rparr>)"
    using Cons.prems w by (intro Cons.IH) simp_all
  with r w show ?case by simp
qed

lemma message_metadata_consumes:
  assumes "unpack_h c1 c2 = int (length ws)"
  shows "message_metadata
       \<lparr>data = pre @ [m1, m2, c1, c2] @ concat (map dense_entry ws) @ rest, pos = length pre\<rparr>
     = Inr (map dense_value ws,
         \<lparr>data = pre @ [m1, m2, c1, c2] @ concat (map dense_entry ws) @ rest,
          pos = length pre + 4 + 2 * length ws\<rparr>)"
proof -
  let ?d = "pre @ [m1, m2, c1, c2] @ concat (map dense_entry ws) @ rest"
  have r1: "read_int16_be \<lparr>data = ?d, pos = length pre\<rparr>
      = (Some (unpack_h m1 m2), \<lparr>data = ?d, pos = length pre + 2\<rparr>)"
    using read_int16_be_at [of "\<lparr>data = ?d, pos = length pre\<rparr>" pre m1 m2
        "[c1, c2] @ concat (map dense_entry ws) @ rest"] by simp
  have r2: "read_int16_be \<lparr>data = ?d, pos = length pre + 2\<rparr>
      = (Some (unpack_h c1 c2), \<lparr>data = ?d, pos = length pre + 4\<rparr>)"
    using read_int16_be_at [of "\<lparr>data = ?d, pos = length pre + 2\<rparr>" "pre @ [m1, m2]" c1 c2
        "concat (map dense_entry ws) @ rest"] by simp
  have r3: "read_multiple_loop (length ws) \<lparr>data = ?d, pos = length pre + 4\<rparr> []
      = ([] @ map dense_value ws,
         \<lparr>data = ?d, pos = length pre + 4\<rparr>
           \<lparr>pos := length (pre @ [m1, m2, c1, c2]) + 2 * length ws\<rparr>)"
    by (intro read_multiple_loop_dense [where rest = rest]) simp_all
  show ?thesis
    using assms r1 r2 r3
    by (simp add: message_metadata_def read_multiple_ints_def and_then_def)
qed

text \<open>
  Claim C5 as written fails at the message-index section. On the six bytes
  \<open>0, 0, 0, 1, 0, 5\<close> a section of one count \<open>C = 0\<close> and \<open>C\<close> integers stops after two
  bytes with no index; the last block of \<^verbatim>\<open>skip_metadata\<close> reads \<open>mbase = 0\<close>, then
  the count 1, then one index, and stops after six bytes.
\<close>

theorem message_metadata_counterexample:
  "message_index_section \<lparr>data = [0, 0, 0, 1, 0, 5], pos = 0\<rparr>
     = Inr ([], \<lparr>data = [0, 0, 0, 1, 0, 5], pos = 2\<rparr>) \<and>
   message_metadata \<lparr>data = [0, 0, 0, 1, 0, 5], pos = 0\<rparr>
     = Inr ([5], \<lparr>data = [0, 0, 0, 1, 0, 5], pos = 6\<rparr>) \<and>
   message_metadata \<lparr>data = [0, 0, 0, 1, 0, 5], pos = 0\<rparr>
     \<noteq> message_index_section \<lparr>data = [0, 0, 0, 1, 0, 5], pos = 0\<rparr>"
  by (simp add: message_index_section_def message_metadata_def read_multiple_ints_def
      read_int16_be_def read_def and_then_def unpack_h_def)

text \<open>
  Claim C5, amended. Each of the seven blocks from rooms to adventurers is a schema section:
  exactly one leading 16-bit count, followed only by the block's fixed list of fields, each
  read with that count as its declared length. The message-index block begins with two
  16-bit integers, \<open>mbase\<close> and then the count; what follows \<open>mbase\<close> is one count \<open>C\<close> and
  a dense array of \<open>C\<close> integers. When the stream holds them, the block consumes exactly
  these \<open>4 + 2 * C\<close> bytes and returns the \<open>C\<close> integers.
\<close>

theorem blocks_follow_schema:
  "rooms_data f =
     schema_section [DenseArray, DenseArray, DenseArray, SparseMap, SparseMap, DenseArray] f \<and>
   exits_data f = schema_section [DenseArray] f \<and>
   objects_data f =
     schema_section [DenseArray, DenseArray, SparseMap, SparseMap, DenseArray, SparseMap,
       SparseMap, SparseMap, DenseArray, SparseMap, DenseArray, SparseMap, SparseMap,
       SparseMap] f \<and>
   secondary_room_data f = schema_section [DenseArray, DenseArray] f \<and>
   clock_events f = schema_section [DenseArray, DenseArray, FlagArray] f \<and>
   villains f =
     schema_section [DenseArray, SparseMap, SparseMap, DenseArray, DenseArray] f \<and>
   adventurers f =
     schema_section [DenseArray, SparseMap, SparseMap, DenseArray, DenseArray, DenseArray,
       SparseMap] f \<and>
   message_metadata f = (case read_int16_be f of (mbase, f') \<Rightarrow> message_index_section f') \<and>
   (unpack_h c1 c2 = int (length ws) \<longrightarrow>
    message_metadata
       \<lparr>data = pre @ [m1, m2, c1, c2] @ concat (map dense_entry ws) @ rest, pos = length pre\<rparr>
     = Inr (map dense_value ws,
         \<lparr>data = pre @ [m1, m2, c1, c2] @ concat (map dense_entry ws) @ rest,
          pos = length pre + 4 + 2 * length ws\<rparr>))"
proof (intro conjI impI)
  show "rooms_data f =
     schema_section [DenseArray, DenseArray, DenseArray, SparseMap, SparseMap, DenseArray] f"
    by (simp add: rooms_data_def schema_section_def and_then_def
        split: prod.splits sum.splits)
  show "exits_data f = schema_section [DenseArray] f"
    by (simp add: exits_data_def schema_section_def and_then_def
        split: prod.splits sum.splits)
  show "objects_data f =
     schema_section [DenseArray, DenseArray, SparseMap, SparseMap, DenseArray, SparseMap,
       SparseMap, SparseMap, DenseArray, SparseMap, DenseArray, SparseMap, SparseMap,
       SparseMap] f"
    by (simp add: objects_data_def schema_section_def and_then_def
        split: prod.splits sum.splits)
  show "secondary_room_data f = schema_section [DenseArray, DenseArray] f"
    by (simp add: secondary_room_data_def schema_section_def and_then_def
        split: prod.splits sum.splits)
  show "clock_events f = schema_section [DenseArray, DenseArray, FlagArray] f"
    by (simp add: clock_events_def schema_section_def and_then_def
        split: prod.splits sum.splits)
  show "villains f =
     schema_section [DenseArray, SparseMap, SparseMap, DenseArray, DenseArray] f"
    by (simp add: villains_def schema_section_def and_then_def
        split: prod.splits sum.splits)
  show "adventurers f =
     schema_section [DenseArray, SparseMap, SparseMap, DenseArray, DenseArray, DenseArray,
       SparseMap] f"
    by (simp add: adventurers_def schema_section_def and_then_def
        split: prod.splits sum.splits)
  show "message_metadata f
      = (case read_int16_be f of (mbase, f') \<Rightarrow> message_index_section f')"
    by (simp add: message_metadata_def message_index_section_def and_then_def
        split: prod.splits sum.splits)
next
  assume "unpack_h c1 c2 = int (length ws)"
  then show "message_metadata
       \<lparr>data = pre @ [m1, m2, c1, c2] @ concat (map dense_entry ws) @ rest, pos = length pre\<rparr>
     = Inr (map dense_value ws,
         \<lparr>data = pre @ [m1, m2, c1, c2] @ concat (map dense_entry ws) @ rest,
          pos = length pre + 4 + 2 * length ws\<rparr>)"
    by (rule message_metadata_consumes)
qed

theorem blocks_follow_schema_witness:
  "unpack_h 0 2 = int (length [(0 :: byte, 5 :: byte), (255, 254)]) \<and>
   message_metadata \<lparr>data = [9, 0, 7, 0, 2, 0, 5, 255, 254, 8, 8], pos = 1\<rparr>
     = Inr ([5, - 2], \<lparr>data = [9, 0, 7, 0, 2, 0, 5, 255, 254, 8, 8], pos = 9\<rparr>)"
proof -
  have count: "unpack_h 0 2 = int (length [(0 :: byte, 5 :: byte), (255, 254)])"
    by (simp add: unpack_h_def)
  have "unpack_h 0 2 = int (length [(0 :: byte, 5 :: byte), (255, 254)]) \<longrightarrow>
    message_metadata
       \<lparr>data = [9] @ [0, 7, 0, 2] @ concat (map dense_entry [(0, 5), (255, 254)]) @ [8, 8],
        pos = length [9 :: byte]\<rparr>
     = Inr (map dense_value [(0, 5), (255, 254)],
         \<lparr>data = [9] @ [0, 7, 0, 2] @ concat (map dense_entry [(0, 5), (255, 254)]) @ [8, 8],
          pos = length [9 :: byte] + 4 + 2 * length [(0 :: byte, 5 :: byte), (255, 254)]\<rparr>)"
    using blocks_follow_schema
      [where ?c1.0 = 0 and ?c2.0 = 2 and ws = "[(0, 5), (255, 254)]" and pre = "[9]"
        and ?m1.0 = 0 and ?m2.0 = 7 and rest = "[8, 8]"]
    by blast
  with count show ?thesis
    by (simp add: unpack_h_def)
qed

subsection \<open>The walk on short and on synthetic files\<close>

lemmas walk_defs =
  skip_metadata_def rooms_data_def exits_data_def objects_data_def secondary_room_data_def
  clock_events_def villains_def adventurers_def message_metadata_def
  read_multiple_ints_def read_partial_ints_def read_flags_def read_partial_loop.simps
  read_int16_be_def read_def and_then_def print_version_def print_parameters_def
  unpack_h_def ord_def tell_def Let_def

text \<open>
  Claim C2 does not hold of the code. \<^verbatim>\<open>read_int16_be\<close> returns \<^verbatim>\<open>None\<close> on an exhausted
  stream and the three array readers stop at it, but \<^verbatim>\<open>skip_metadata\<close> uses the header
  fields and the section counts it has read without that test. On the empty file the
  comparison \<^verbatim>\<open>vedit < 128\<close> raises \<^verbatim>\<open>TypeError\<close>; on a file that ends after the
  twelve header bytes \<^verbatim>\<open>range(rlnt)\<close> raises \<^verbatim>\<open>TypeError\<close>; and on a complete file
  whose edit number is negative \<^verbatim>\<open>chr(vedit)\<close> raises \<^verbatim>\<open>ValueError\<close>.
\<close>

theorem skip_metadata_raises:
  "skip_metadata \<lparr>data = [], pos = 0\<rparr> = Inl TypeError \<and>
   skip_metadata \<lparr>data = [0, 2, 0, 7, 0, 65, 1, 94, 0, 0, 0, 100], pos = 0\<rparr>
     = Inl TypeError \<and>
   skip_metadata
     \<lparr>data = [0, 2, 0, 7, 255, 255, 1, 94, 0, 0, 0, 100] @ empty_sections @ [0, 0, 0, 0],
      pos = 0\<rparr> = Inl ValueError"
  by (simp add: walk_defs empty_sections_def)

text \<open>
  Claim C3 does not hold of the code. On a file that ends after the six bytes of the
  version header the three game parameters are \<^verbatim>\<open>None\<close>, and formatting
  \<^verbatim>\<open>{strbit:04x}\<close> raises \<^verbatim>\<open>TypeError\<close>: the pipeline returns no message list and no
  quality.
\<close>

theorem pipeline_header_only_raises: "pipeline [0, 2, 0, 7, 0, 65] = Inl TypeError"
  by (simp add: pipeline_def walk_defs)

lemma skip_metadata_empty_sections:
  assumes "0 \<le> unpack_h e1 e2"
  shows "skip_metadata
     \<lparr>data = [a1, a2, b1, b2, e1, e2, s1, s2, t1, t2, g1, g2] @ empty_sections @
              [m1, m2, 0, 0] @ rest, pos = 0\<rparr>
   = Inr ((46, []),
     \<lparr>data = [a1, a2, b1, b2, e1, e2, s1, s2, t1, t2, g1, g2] @ empty_sections @
              [m1, m2, 0, 0] @ rest, pos = 46\<rparr>)"
  using assms
  by (simp add: walk_defs empty_sections_def)

lemma length_empty_sections: "length empty_sections = 30"
  by (simp add: empty_sections_def)

lemma hello_world_fixed_stride: "fixed_stride hello_world = [py_str ''HELLO'', py_str ''RLD'']"
  by code_simp

lemma hello_world_continuous_run:
  "continuous_run hello_world = [py_str ''HELLO'', py_str ''WORLD'']"
  by code_simp

lemma hello_world_quality: "quality hello_world = 1"
  by code_simp

lemma segment_hello_world: "segment hello_world = ([py_str ''HELLO'', py_str ''RLD''], 1)"
  by (simp add: segment_def hello_world_fixed_stride hello_world_continuous_run
      hello_world_quality)

lemma extract_messages_at:
  "length pre = start_pos \<Longrightarrow>
   extract_messages \<lparr>data = pre @ decrypt_text plain 0, pos = p\<rparr> start_pos message_indices
     = segment plain"
  by (simp add: extract_messages_def seek_def read_all_def Let_def decrypt_text_def
      decrypt_loop_twice)

text \<open>
  Claim C1 as written fails. The file is the header, the sections with count 0 and the
  encryption of \<^verbatim>\<open>"HELLO\0WORLD\0"\<close> (which is its decryption, the codec being its own
  inverse). When the message-index section is the single count 0, the walk takes that count
  for \<open>mbase\<close> and the first two bytes of the text for the count, reads the rest of the text
  as indices, and the pipeline returns no message and quality 0. When the section is
  \<open>mbase\<close> and the count 0, the text is decrypted in full, but both extractions yield
  two strings and the fixed-stride list \<^verbatim>\<open>["HELLO", "RLD"]\<close> is the one returned.
\<close>

theorem pipeline_hello_world_counterexample:
  "pipeline ([0, 2, 0, 7, 0, 65, 1, 94, 0, 0, 0, 100] @ empty_sections @
             [0, 0] @ decrypt_text hello_world 0)
     = Inr ([], 0) \<and>
   pipeline ([0, 2, 0, 7, 0, 65, 1, 94, 0, 0, 0, 100] @ empty_sections @
             [0, 0] @ decrypt_text hello_world 0)
     \<noteq> Inr ([py_str ''HELLO'', py_str ''WORLD''], 1) \<and>
   pipeline ([0, 2, 0, 7, 0, 65, 1, 94, 0, 0, 0, 100] @ empty_sections @
             [0, 0, 0, 0] @ decrypt_text hello_world 0)
     = Inr ([py_str ''HELLO'', py_str ''RLD''], 1) \<and>
   pipeline ([0, 2, 0, 7, 0, 65, 1, 94, 0, 0, 0, 100] @ empty_sections @
             [0, 0, 0, 0] @ decrypt_text hello_world 0)
     \<noteq> Inr ([py_str ''HELLO'', py_str ''WORLD''], 1)"
proof -
  have short: "pipeline ([0, 2, 0, 7, 0, 65, 1, 94, 0, 0, 0, 100] @ empty_sections @
             [0, 0] @ decrypt_text hello_world 0) = Inr ([], 0)"
    by code_simp
  have full: "pipeline ([0, 2, 0, 7, 0, 65, 1, 94, 0, 0, 0, 100] @ empty_sections @
             [0, 0, 0, 0] @ decrypt_text hello_world 0)
      = Inr ([py_str ''HELLO'', py_str ''RLD''], 1)"
    by code_simp
  have differ: "[py_str ''HELLO'', py_str ''RLD''] \<noteq> [py_str ''HELLO'', py_str ''WORLD'']"
    by (simp add: py_str_def)
  show ?thesis
    unfolding short full using differ by simp
qed

text \<open>
  Claim C1, amended. For a file made of twelve header bytes whose edit number is not
  negative, the seven sections from rooms to adventurers with count 0 and each sparse field
  closed by its sentinel, the message-index block as \<open>mbase\<close> followed by the count 0, and
  the encryption of \<^verbatim>\<open>"HELLO\0WORLD\0"\<close> with the counter starting at 0, the pipeline
  returns the messages \<^verbatim>\<open>["HELLO", "RLD"]\<close> and the quality ratio 1: both extractions
  yield two strings, and on a tie the fixed-stride list is kept.
\<close>

theorem pipeline_hello_world:
  "0 \<le> unpack_h e1 e2 \<Longrightarrow>
   pipeline ([a1, a2, b1, b2, e1, e2, s1, s2, t1, t2, g1, g2] @ empty_sections @
             [m1, m2, 0, 0] @ decrypt_text hello_world 0)
     = Inr ([py_str ''HELLO'', py_str ''RLD''], 1)"
proof -
  assume e: "0 \<le> unpack_h e1 e2"
  let ?pre = "[a1, a2, b1, b2, e1, e2, s1, s2, t1, t2, g1, g2] @ empty_sections @ [m1, m2, 0, 0]"
  have len: "length ?pre = 46" by (simp add: length_empty_sections)
  have "extract_messages \<lparr>data = ?pre @ decrypt_text hello_world 0, pos = 46\<rparr> 46 []
      = segment hello_world"
    using len by (rule extract_messages_at)
  then show ?thesis
    using skip_metadata_empty_sections [OF e, of a1 a2 b1 b2 s1 s2 t1 t2 g1 g2 m1 m2
        "decrypt_text hello_world 0"]
    by (simp add: pipeline_def and_then_def segment_hello_world)
qed

theorem pipeline_hello_world_witness:
  "0 \<le> unpack_h 0 65 \<and>
   pipeline ([0, 2, 0, 7, 0, 65, 1, 94, 0, 0, 0, 100] @ empty_sections @
             [0, 1, 0, 0] @ decrypt_text hello_world 0)
     = Inr ([py_str ''HELLO'', py_str ''RLD''], 1)"
proof -
  have e: "0 \<le> unpack_h 0 65" by (simp add: unpack_h_def)
  from e pipeline_hello_world [OF e, of 0 2 0 7 1 94 0 0 0 100 0 1] show ?thesis by simp
qed

end
